theory Spec2Isabelle
  imports Main "HOL-Library.Sublist"
begin

section \<open>Documents, collections and handler effects\<close>

text \<open>
  The controllers of \<^verbatim>\<open>src/controllers/users.ts\<close> work on three collections of a
  document store (users, channels, servers) and on the process-wide connection map
  \<^verbatim>\<open>App.clients\<close> of \<^verbatim>\<open>index.ts\<close>. Object ids are compared through their string
  form everywhere in the controllers, so an id is a string here. A collection is the
  list of its documents in natural (insertion) order, which is the order in which an
  unsorted \<^verbatim>\<open>find\<close> returns them.
\<close>

type_synonym objectId = string

text \<open>
  Modelled from the spec: the schemas of \<^verbatim>\<open>models/user\<close>, \<^verbatim>\<open>models/channel\<close> and
  \<^verbatim>\<open>models/server\<close> are not part of the sources at hand. The documents carry the
  fields of the specification's data model, under the names the controllers use for
  them; every relationship field is an array of ids.
\<close>

datatype Availability = Online | Offline

record user =
  user_id :: objectId
  email :: string
  availability :: Availability
  friends :: "objectId list"
  invitesTo :: "objectId list"
  invitesFrom :: "objectId list"
  invitesToChannels :: "objectId list"
  joinedChannels :: "objectId list"

record channel =
  channel_id :: objectId
  serverId :: objectId

record server =
  server_id :: objectId
  owner :: objectId

datatype AppSocket = AppSocket string

record state =
  users :: "user list"
  channels :: "channel list"
  servers :: "server list"
  clients :: "string \<rightharpoonup> AppSocket"

text \<open>
  A JavaScript error object: its constructor name, its message and the \<^verbatim>\<open>statusCode\<close>
  property, which is absent unless some code assigns it.
\<close>

record jsError =
  errName :: string
  message :: string
  statusCode :: "nat option"

definition newError :: "string \<Rightarrow> jsError" where
  "newError msg = \<lparr>errName = ''Error'', message = msg, statusCode = None\<rparr>"

text \<open>
  What a handler does to the outside, in order: a response with a status and a payload,
  an error handed to \<^verbatim>\<open>next\<close>, an exception thrown out of the handler, a rejected
  promise that no \<^verbatim>\<open>catch\<close> receives, and a line written by \<^verbatim>\<open>console.log\<close>.
\<close>

datatype 'p effect =
    Respond nat 'p
  | Next jsError
  | Throw jsError
  | Unhandled jsError
  | ConsoleLog 'p

definition responses :: "'p effect list \<Rightarrow> (nat \<times> 'p) list" where
  "responses es = List.map_filter (\<lambda>e. case e of Respond s p \<Rightarrow> Some (s, p) | _ \<Rightarrow> None) es"

definition nextErrors :: "'p effect list \<Rightarrow> jsError list" where
  "nextErrors es = List.map_filter (\<lambda>e. case e of Next x \<Rightarrow> Some x | _ \<Rightarrow> None) es"

definition thrown :: "'p effect list \<Rightarrow> jsError list" where
  "thrown es = List.map_filter (\<lambda>e. case e of Throw x \<Rightarrow> Some x | _ \<Rightarrow> None) es"

subsection \<open>Queries\<close>

definition findUser :: "state \<Rightarrow> objectId \<Rightarrow> user option" where
  "findUser st i = find (\<lambda>u. user_id u = i) (users st)"

definition findChannel :: "state \<Rightarrow> objectId \<Rightarrow> channel option" where
  "findChannel st i = find (\<lambda>c. channel_id c = i) (channels st)"

definition findServer :: "state \<Rightarrow> objectId \<Rightarrow> server option" where
  "findServer st i = find (\<lambda>s. server_id s = i) (servers st)"

text \<open>
  Mongoose's \<^verbatim>\<open>populate\<close>: on a single reference the id is replaced by its document,
  or by null when there is none; on an array of references the ids with no document
  are left out of the populated array.
\<close>

definition populateArray :: "(objectId \<Rightarrow> 'd option) \<Rightarrow> objectId list \<Rightarrow> 'd list" where
  "populateArray look ids = List.map_filter look ids"

type_synonym FetchedServer = "server \<times> user option"
type_synonym FetchedChannel = "channel \<times> FetchedServer option"

definition populateServer :: "state \<Rightarrow> objectId \<Rightarrow> FetchedServer option" where
  "populateServer st sid = map_option (\<lambda>s. (s, findUser st (owner s))) (findServer st sid)"

definition populateChannel :: "state \<Rightarrow> objectId \<Rightarrow> FetchedChannel option" where
  "populateChannel st cid =
     map_option (\<lambda>c. (c, populateServer st (serverId c))) (findChannel st cid)"

text \<open>
  Modelled from the spec: \<^verbatim>\<open>handleDocumentNotFound\<close> of \<^verbatim>\<open>utils/functions\<close> is not
  part of the sources at hand. The controllers use it as a guard that lets a fetched
  document through; for an absent document the specification's error taxonomy has
  \<^verbatim>\<open>NotFound\<close> (referenced identity absent).
\<close>

definition handleDocumentNotFound :: "'d option \<Rightarrow> jsError + 'd" where
  "handleDocumentNotFound doc =
     (case doc of None \<Rightarrow> Inl (newError ''NotFound'') | Some d \<Rightarrow> Inr d)"

section \<open>Related servers\<close>

text \<open>\<^verbatim>\<open>Array.prototype.findIndex\<close>: the index of the first match, or -1.\<close>

fun findIndexFrom :: "int \<Rightarrow> ('a \<Rightarrow> bool) \<Rightarrow> 'a list \<Rightarrow> int" where
  "findIndexFrom k p [] = -1"
| "findIndexFrom k p (x # xs) = (if p x then k else findIndexFrom (k + 1) p xs)"

definition findIndex :: "('a \<Rightarrow> bool) \<Rightarrow> 'a list \<Rightarrow> int" where
  "findIndex p xs = findIndexFrom 0 p xs"

text \<open>\<^verbatim>\<open>Array.prototype.filter\<close> with a callback that also receives the index.\<close>

fun filterIndexedFrom :: "int \<Rightarrow> ('a \<Rightarrow> int \<Rightarrow> bool) \<Rightarrow> 'a list \<Rightarrow> 'a list" where
  "filterIndexedFrom k f [] = []"
| "filterIndexedFrom k f (x # xs) =
     (if f x k then x # filterIndexedFrom (k + 1) f xs else filterIndexedFrom (k + 1) f xs)"

definition filterIndexed :: "('a \<Rightarrow> int \<Rightarrow> bool) \<Rightarrow> 'a list \<Rightarrow> 'a list" where
  "filterIndexed f xs = filterIndexedFrom 0 f xs"

text \<open>\<^verbatim>\<open>.filter(Boolean)\<close> on an array of objects and nulls keeps the objects.\<close>

definition Boolean :: "'a option \<Rightarrow> bool" where
  "Boolean x = (x \<noteq> None)"

text \<open>
  The callback that turns a populated channel into the transfer form of its server, or
  null when the channel's server reference did not resolve. \<^verbatim>\<open>serverDTO\<close> and the
  \<^verbatim>\<open>id\<close> property of its result come from modules that are not part of the sources
  at hand; they are parameters (\<open>serverDTO\<close>, \<open>dto_id\<close>).
\<close>

definition channelServer :: "(FetchedServer \<Rightarrow> 'dto) \<Rightarrow> FetchedChannel \<Rightarrow> 'dto option" where
  "channelServer serverDTO ch =
     (case snd ch of None \<Rightarrow> None | Some srv \<Rightarrow> Some (serverDTO srv))"

definition sameServer :: "('dto \<Rightarrow> objectId) \<Rightarrow> 'dto \<Rightarrow> 'dto option \<Rightarrow> bool" where
  "sameServer dto_id sv s = (case s of None \<Rightarrow> False | Some s' \<Rightarrow> dto_id s' = dto_id sv)"

definition firstOccurrence ::
  "('dto \<Rightarrow> objectId) \<Rightarrow> 'dto option list \<Rightarrow> 'dto option \<Rightarrow> int \<Rightarrow> bool"
where
  "firstOccurrence dto_id allServers srv i =
     (case srv of None \<Rightarrow> False
      | Some sv \<Rightarrow> findIndex (sameServer dto_id sv) allServers = i)"

definition uniqueServers :: "('dto \<Rightarrow> objectId) \<Rightarrow> 'dto option list \<Rightarrow> 'dto option list" where
  "uniqueServers dto_id allServers =
     filterIndexed (firstOccurrence dto_id allServers) allServers"

text \<open>
  The body of \<^verbatim>\<open>getRelatedServers\<close> once the user document (with its channel lists
  populated down to the owning server and that server's owner) is there.
\<close>

definition relatedServersOf ::
  "(FetchedServer \<Rightarrow> 'dto) \<Rightarrow> ('dto \<Rightarrow> objectId) \<Rightarrow> state \<Rightarrow> objectId \<Rightarrow> user \<Rightarrow> 'dto option list"
where
  "relatedServersOf serverDTO dto_id st userId usr =
     (let owned = map (\<lambda>s. (s, findUser st (owner s)))
                    (filter (\<lambda>s. owner s = userId) (servers st));
          invitedServers =
            filter Boolean
              (map (channelServer serverDTO)
                 (populateArray (populateChannel st) (invitesToChannels usr)));
          joinedServers =
            filter Boolean
              (map (channelServer serverDTO)
                 (populateArray (populateChannel st) (joinedChannels usr)));
          ownServers = map (\<lambda>srv. Some (serverDTO srv)) owned;
          allServers = invitedServers @ joinedServers @ ownServers
      in uniqueServers dto_id allServers)"

definition getRelatedServers ::
  "(FetchedServer \<Rightarrow> 'dto) \<Rightarrow> ('dto \<Rightarrow> objectId) \<Rightarrow> state \<Rightarrow> objectId
     \<Rightarrow> 'dto option list effect list"
where
  "getRelatedServers serverDTO dto_id st userId =
     (case handleDocumentNotFound (findUser st userId) of
        Inl e \<Rightarrow> [Unhandled e]
      | Inr usr \<Rightarrow> [Respond 200 (relatedServersOf serverDTO dto_id st userId usr)])"

subsection \<open>The aggregation as the specification words it\<close>

text \<open>
  First-seen-wins removal of duplicates by a key: walk the list, keep an element when
  its key has not been seen, and remember the key.
\<close>

fun firstSeen :: "('a \<Rightarrow> 'k) \<Rightarrow> 'k set \<Rightarrow> 'a list \<Rightarrow> 'a list" where
  "firstSeen key seen [] = []"
| "firstSeen key seen (x # xs) =
     (if key x \<in> seen then firstSeen key seen xs
      else x # firstSeen key (insert (key x) seen) xs)"

text \<open>The servers a list of channel ids leads to; unresolved references lead nowhere.\<close>

definition serverOfChannel :: "state \<Rightarrow> objectId \<Rightarrow> FetchedServer option" where
  "serverOfChannel st cid =
     (case findChannel st cid of None \<Rightarrow> None | Some c \<Rightarrow> populateServer st (serverId c))"

definition reachableServers :: "state \<Rightarrow> objectId list \<Rightarrow> FetchedServer list" where
  "reachableServers st cids = List.map_filter (serverOfChannel st) cids"

definition ownedServers :: "state \<Rightarrow> objectId \<Rightarrow> FetchedServer list" where
  "ownedServers st userId =
     map (\<lambda>s. (s, findUser st (owner s))) (filter (\<lambda>s. owner s = userId) (servers st))"

definition candidateServers :: "state \<Rightarrow> user \<Rightarrow> FetchedServer list" where
  "candidateServers st usr =
     reachableServers st (invitesToChannels usr)
     @ reachableServers st (joinedChannels usr)
     @ ownedServers st (user_id usr)"

definition relatedServers :: "state \<Rightarrow> user \<Rightarrow> FetchedServer list" where
  "relatedServers st usr =
     firstSeen (\<lambda>srv. server_id (fst srv)) {} (candidateServers st usr)"

subsection \<open>A worked scenario\<close>

text \<open>
  U owns server S1 (with channel C1), holds a pending invite to channel C2 of server S2
  and has joined channel C3 of S2; V owns S2. The transfer form used in the examples
  keeps only the server's id.
\<close>

definition userU :: user where
  "userU = \<lparr>user_id = ''U'', email = ''u@example.org'', availability = Online,
     friends = [], invitesTo = [], invitesFrom = [],
     invitesToChannels = [''C2''], joinedChannels = [''C3'']\<rparr>"

definition userV :: user where
  "userV = \<lparr>user_id = ''V'', email = ''v@example.org'', availability = Offline,
     friends = [], invitesTo = [], invitesFrom = [],
     invitesToChannels = [], joinedChannels = []\<rparr>"

definition serverS1 :: server where
  "serverS1 = \<lparr>server_id = ''S1'', owner = ''U''\<rparr>"

definition serverS2 :: server where
  "serverS2 = \<lparr>server_id = ''S2'', owner = ''V''\<rparr>"

definition scenario :: state where
  "scenario = \<lparr>users = [userU, userV],
     channels = [\<lparr>channel_id = ''C1'', serverId = ''S1''\<rparr>,
                 \<lparr>channel_id = ''C2'', serverId = ''S2''\<rparr>,
                 \<lparr>channel_id = ''C3'', serverId = ''S2''\<rparr>],
     servers = [serverS1, serverS2],
     clients = Map.empty\<rparr>"

definition idOnlyDTO :: "FetchedServer \<Rightarrow> objectId" where
  "idOnlyDTO srv = server_id (fst srv)"

definition dtoId :: "objectId \<Rightarrow> objectId" where
  "dtoId d = d"

text \<open>
  W holds references to channel C9, whose server S9 does not exist, next to a pending
  invite to C2 and the joined channel C3 of S2; W owns S3.
\<close>

definition userW :: user where
  "userW = \<lparr>user_id = ''W'', email = ''w@example.org'', availability = Online,
     friends = [], invitesTo = [], invitesFrom = [],
     invitesToChannels = [''C9'', ''C2''], joinedChannels = [''C9'', ''C3'']\<rparr>"

definition serverS3 :: server where
  "serverS3 = \<lparr>server_id = ''S3'', owner = ''W''\<rparr>"

definition danglingScenario :: state where
  "danglingScenario = \<lparr>users = [userW, userV],
     channels = [\<lparr>channel_id = ''C2'', serverId = ''S2''\<rparr>,
                 \<lparr>channel_id = ''C3'', serverId = ''S2''\<rparr>,
                 \<lparr>channel_id = ''C9'', serverId = ''S9''\<rparr>],
     servers = [serverS3, serverS2],
     clients = Map.empty\<rparr>"

section \<open>Related channels\<close>

text \<open>
  \<^verbatim>\<open>getRelatedChannels\<close> sends its response right away, outside the promise chain; the
  chain then looks the user up, collects the ids of the owned servers and of the
  channel invites, runs one \<^verbatim>\<open>$or\<close> query over the channels and writes the ids and
  the channels found to the console.
\<close>

datatype channelsPayload =
    NoBody
  | LoggedIds "objectId list"
  | LoggedChannels "channel list"

definition findRelatedChannels :: "state \<Rightarrow> objectId list \<Rightarrow> objectId list \<Rightarrow> channel list" where
  "findRelatedChannels st inviteChannelsIDs ownServersIDs =
     filter (\<lambda>c. channel_id c \<in> set inviteChannelsIDs \<or> serverId c \<in> set ownServersIDs)
       (channels st)"

definition getRelatedChannels :: "state \<Rightarrow> objectId \<Rightarrow> channelsPayload effect list" where
  "getRelatedChannels st userId =
     Respond 200 NoBody #
     (case handleDocumentNotFound (findUser st userId) of
        Inl e \<Rightarrow> [Unhandled e]
      | Inr usr \<Rightarrow>
          (let ownServersIDs = map server_id (filter (\<lambda>s. owner s = userId) (servers st));
               inviteChannelsIDs = invitesToChannels usr
           in [ConsoleLog (LoggedIds inviteChannelsIDs),
               ConsoleLog (LoggedChannels
                 (findRelatedChannels st inviteChannelsIDs ownServersIDs))]))"

section \<open>Saving and removing user documents\<close>

fun replaceFirst :: "('a \<Rightarrow> bool) \<Rightarrow> 'a \<Rightarrow> 'a list \<Rightarrow> 'a list" where
  "replaceFirst p y [] = []"
| "replaceFirst p y (x # xs) = (if p x then y # xs else x # replaceFirst p y xs)"

fun removeFirst :: "('a \<Rightarrow> bool) \<Rightarrow> 'a list \<Rightarrow> 'a list" where
  "removeFirst p [] = []"
| "removeFirst p (x # xs) = (if p x then xs else x # removeFirst p xs)"

text \<open>\<^verbatim>\<open>user.save()\<close> on a fetched document: the stored document with its id is updated.\<close>

definition saveUser :: "state \<Rightarrow> user \<Rightarrow> state" where
  "saveUser st usr =
     st\<lparr>users := replaceFirst (\<lambda>d. user_id d = user_id usr) usr (users st)\<rparr>"

definition findByIdAndRemove :: "state \<Rightarrow> objectId \<Rightarrow> state" where
  "findByIdAndRemove st i = st\<lparr>users := removeFirst (\<lambda>d. user_id d = i) (users st)\<rparr>"

text \<open>
  The inline \<^verbatim>\<open>catch\<close> handlers of the controller: an error without a status gets 500,
  and goes to \<^verbatim>\<open>next\<close>.
\<close>

definition catchNext :: "jsError \<Rightarrow> 'p effect list" where
  "catchNext e = [Next (if statusCode e = None then e\<lparr>statusCode := Some 500\<rparr> else e)]"

text \<open>
  Modelled from the spec: \<^verbatim>\<open>requestErrorHandler\<close> of \<^verbatim>\<open>utils/functions\<close> is not
  part of the sources at hand. The specification has a failure reported to the caller as
  an error of the 5xx class, which is what the inline handlers above do.
\<close>

definition requestErrorHandler :: "jsError \<Rightarrow> 'p effect list" where
  "requestErrorHandler e = catchNext e"

section \<open>Deleting an account\<close>

definition deleteUser :: "state \<Rightarrow> objectId \<Rightarrow> state \<times> string effect list" where
  "deleteUser st userId =
     (case findUser st userId of
        None \<Rightarrow> (st, catchNext (newError ''Could not find user.''))
      | Some usr \<Rightarrow> (findByIdAndRemove st userId, [Respond 200 ''Deleted user.'']))"

section \<open>Bulk friend update\<close>

text \<open>The decoded request body field and the decoded query parameter.\<close>

datatype json =
    JUndefined
  | JNull
  | JBoolean bool
  | JNumber int
  | JString string
  | JArray "json list"
  | JObject "(string \<times> json) list"

datatype queryValue =
    QUndefined
  | QString string
  | QArray "queryValue list"
  | QObject "(string \<times> queryValue) list"

text \<open>
  Modelled from the spec: \<^verbatim>\<open>validateUserField\<close> of \<^verbatim>\<open>models/user\<close> is not part of the
  sources at hand. For the field \<^verbatim>\<open>friends\<close>, the only one this controller validates,
  the specification requires a non-empty array of id-shaped strings. What makes a string
  id-shaped is left open there, so it is the parameter \<open>idShaped\<close>.
\<close>

fun isIdString :: "(string \<Rightarrow> bool) \<Rightarrow> json \<Rightarrow> bool" where
  "isIdString idShaped (JString s) = idShaped s"
| "isIdString idShaped _ = False"

fun validateUserField :: "(string \<Rightarrow> bool) \<Rightarrow> json \<Rightarrow> bool" where
  "validateUserField idShaped (JArray xs) = (xs \<noteq> [] \<and> list_all (isIdString idShaped) xs)"
| "validateUserField idShaped _ = False"

text \<open>The strings of the body's array: after validation, all of its elements.\<close>

fun jsonStrings :: "json list \<Rightarrow> string list" where
  "jsonStrings [] = []"
| "jsonStrings (JString s # xs) = s # jsonStrings xs"
| "jsonStrings (_ # xs) = jsonStrings xs"

fun bodyIds :: "json \<Rightarrow> objectId list" where
  "bodyIds (JArray xs) = jsonStrings xs"
| "bodyIds _ = []"

text \<open>\<^verbatim>\<open>typeof action !== 'string' || !['add', 'delete'].includes(action)\<close>\<close>

fun invalidAction :: "queryValue \<Rightarrow> bool" where
  "invalidAction (QString a) = (a \<notin> set [''add'', ''delete''])"
| "invalidAction _ = True"

text \<open>
  \<^verbatim>\<open>[...new Set(xs)]\<close>: the elements in the order of their first insertion.
\<close>

definition newSet :: "'a list \<Rightarrow> 'a list" where
  "newSet xs = fold (\<lambda>x acc. if x \<in> set acc then acc else acc @ [x]) xs []"

datatype friendsReply = FriendsReply string "user list"

text \<open>
  Assigning to \<^verbatim>\<open>user.friends\<close> marks the path as modified only when the assigned
  array is not deep-equal to the array the document held, which here is the populated
  one; \<^verbatim>\<open>save()\<close> writes the modified paths only. The delete branch assigns documents
  of the populated array, so the two arrays are equal exactly when the filter removed
  nothing. The add branch assigns ids: an id is never deep-equal to a document, so the
  two arrays are equal only when both are empty.
\<close>

fun deepEqualIds :: "objectId list \<Rightarrow> user list \<Rightarrow> bool" where
  "deepEqualIds [] [] = True"
| "deepEqualIds _ _ = False"

definition saveFriends :: "state \<Rightarrow> user \<Rightarrow> bool \<Rightarrow> objectId list \<Rightarrow> state" where
  "saveFriends st usr modified ids =
     (if modified then saveUser st (usr\<lparr>friends := ids\<rparr>) else st)"

definition updateFriends ::
  "(string \<Rightarrow> bool) \<Rightarrow> state \<Rightarrow> objectId \<Rightarrow> json \<Rightarrow> queryValue
     \<Rightarrow> state \<times> friendsReply effect list"
where
  "updateFriends idShaped st userId body action =
     (if \<not> validateUserField idShaped body then
        (st, [Next (newError ''Validation failed, entered data is incorrect.'')])
      else if invalidAction action then
        (st, [Next (newError ''Validation failed, `action` query parameter is required.'')])
      else
        (let friendIds = filter (\<lambda>i. i \<noteq> userId) (bodyIds body) in
         case findUser st userId of
           None \<Rightarrow> (st, catchNext (newError ''Could not find user.''))
         | Some usr \<Rightarrow>
             (let populated = populateArray (findUser st) (friends usr) in
              if action = QString ''delete'' then
                (let kept = filter (\<lambda>friend. user_id friend \<notin> set friendIds) populated;
                     st' = saveFriends st usr (kept \<noteq> populated) (map user_id kept)
                 in (st', [Respond 200 (FriendsReply ''Friends deleted!''
                             (populateArray (findUser st') (map user_id kept)))]))
              else
                (let foundUsers = filter (\<lambda>u. user_id u \<in> set friendIds) (users st);
                     newFriends = map user_id foundUsers;
                     merged = newSet (map user_id populated @ newFriends);
                     st' = saveFriends st usr (\<not> deepEqualIds merged populated) merged
                 in (st', [Respond 200 (FriendsReply ''Friends added!''
                             (populateArray (findUser st') merged))])))))"

text \<open>The friend documents a handler sent back.\<close>

fun replyFriends :: "friendsReply effect \<Rightarrow> user list" where
  "replyFriends (Respond status (FriendsReply msg docs)) = docs"
| "replyFriends _ = []"

definition repliedFriends :: "friendsReply effect list \<Rightarrow> user list" where
  "repliedFriends es = concat (map replyFriends es)"

text \<open>The sample reading of "id-shaped" used in the examples: any non-empty string.\<close>

definition nonEmptyId :: "string \<Rightarrow> bool" where
  "nonEmptyId s = (s \<noteq> [])"

section \<open>Login and logout\<close>

text \<open>
  The connection map of \<^verbatim>\<open>index.ts\<close>.
\<close>

definition getClient :: "state \<Rightarrow> string \<Rightarrow> AppSocket option" where
  "getClient st sid = clients st sid"

definition setClient :: "state \<Rightarrow> string \<Rightarrow> AppSocket \<Rightarrow> state" where
  "setClient st sid sock = st\<lparr>clients := (clients st)(sid \<mapsto> sock)\<rparr>"

text \<open>
  What the collaborators hand to \<^verbatim>\<open>login\<close>: whether express-validator found the
  request well-formed, what passport's local strategy answered, and whether
  \<^verbatim>\<open>req.logIn\<close> failed. \<^verbatim>\<open>userDTO\<close> (not part of the sources at hand) is a parameter;
  it receives the document with its channel lists populated.
\<close>

datatype authResult =
    AuthError jsError
  | AuthRejected string
  | AuthUser objectId

datatype 'dto loginReply =
    ValidationErrors
  | MessageReply string
  | UserReply 'dto

type_synonym FetchedUser = "user \<times> channel list \<times> channel list"

definition login ::
  "(FetchedUser \<Rightarrow> 'dto) \<Rightarrow> state \<Rightarrow> bool \<Rightarrow> authResult \<Rightarrow> jsError option
     \<Rightarrow> state \<times> 'dto loginReply effect list"
where
  "login userDTO st errorsEmpty auth logInErr =
     (if \<not> errorsEmpty then (st, [Respond 401 ValidationErrors])
      else case auth of
        AuthError e \<Rightarrow> (st, [Next e])
      | AuthRejected msg \<Rightarrow> (st, [Respond 401 (MessageReply msg)])
      | AuthUser uid \<Rightarrow>
          (case logInErr of
             Some e \<Rightarrow> (st, [Next e])
           | None \<Rightarrow>
               (case findUser st uid of
                  None \<Rightarrow> (st, requestErrorHandler (newError ''Could not find user.''))
                | Some usr \<Rightarrow>
                    (let invited = populateArray (findChannel st) (invitesToChannels usr);
                         joined = populateArray (findChannel st) (joinedChannels usr);
                         usr' = usr\<lparr>availability := Online\<rparr>
                     in (saveUser st usr',
                         [Respond 200 (UserReply (userDTO (usr', invited, joined)))])))))"

text \<open>
  \<^verbatim>\<open>logout\<close> receives the authenticated user of the request, if any, and the error
  \<^verbatim>\<open>req.logout\<close> passes to its callback, if any. Without a user the handler sends 200
  and goes on to destructure \<^verbatim>\<open>req.user\<close>, which throws. With a logout error the
  handler calls \<^verbatim>\<open>next\<close> and goes on as well.
\<close>

definition destructureError :: jsError where
  "destructureError =
     \<lparr>errName = ''TypeError'',
      message = ''Cannot destructure property id of req.user as it is undefined.'',
      statusCode = None\<rparr>"

definition logout ::
  "state \<Rightarrow> objectId option \<Rightarrow> jsError option \<Rightarrow> state \<times> unit effect list"
where
  "logout st reqUser logoutErr =
     (case reqUser of
        None \<Rightarrow> (st, [Respond 200 (), Throw destructureError])
      | Some uid \<Rightarrow>
          (let reported = (case logoutErr of Some e \<Rightarrow> [Next e] | None \<Rightarrow> []) in
           case findUser st uid of
             None \<Rightarrow> (st, reported @ requestErrorHandler (newError ''Could not find user.''))
           | Some usr \<Rightarrow>
               (saveUser st (usr\<lparr>availability := Offline\<rparr>), reported @ [Respond 200 ()])))"

text \<open>The friends stored for an identity (none when the identity is not stored).\<close>

definition friendsOf :: "state \<Rightarrow> objectId \<Rightarrow> objectId list" where
  "friendsOf st i = (case findUser st i of None \<Rightarrow> [] | Some u \<Rightarrow> friends u)"

text \<open>
  The target's friends that refer to a stored identity, and the candidate ids of a
  request body that do, the target's own id left out.
\<close>

definition resolvedFriends :: "state \<Rightarrow> user \<Rightarrow> objectId list" where
  "resolvedFriends st usr = filter (\<lambda>i. findUser st i \<noteq> None) (friends usr)"

definition knownCandidates :: "state \<Rightarrow> objectId \<Rightarrow> json \<Rightarrow> objectId list" where
  "knownCandidates st userId body =
     map user_id
       (filter (\<lambda>u. user_id u \<in> set (filter (\<lambda>i. i \<noteq> userId) (bodyIds body))) (users st))"

subsection \<open>A second scenario: three identities and two registered connections\<close>

definition userA :: user where
  "userA = \<lparr>user_id = ''A'', email = ''a@example.org'', availability = Online,
     friends = [''B''], invitesTo = [], invitesFrom = [],
     invitesToChannels = [], joinedChannels = []\<rparr>"

definition userB :: user where
  "userB = \<lparr>user_id = ''B'', email = ''b@example.org'', availability = Online,
     friends = [''A''], invitesTo = [''C''], invitesFrom = [],
     invitesToChannels = [], joinedChannels = []\<rparr>"

definition userC :: user where
  "userC = \<lparr>user_id = ''C'', email = ''c@example.org'', availability = Offline,
     friends = [], invitesTo = [], invitesFrom = [''B''],
     invitesToChannels = [], joinedChannels = []\<rparr>"

definition friendsScenario :: state where
  "friendsScenario = \<lparr>users = [userA, userB, userC], channels = [], servers = [],
     clients = [''socket1'' \<mapsto> AppSocket ''socket1'', ''socket2'' \<mapsto> AppSocket ''socket2'']\<rparr>"

text \<open>
  A third scenario: D's friends name Z, which no identity carries, and E's friends name
  E itself.
\<close>

definition userD :: user where
  "userD = \<lparr>user_id = ''D'', email = ''d@example.org'', availability = Online,
     friends = [''Z'', ''B''], invitesTo = [], invitesFrom = [],
     invitesToChannels = [], joinedChannels = []\<rparr>"

definition userE :: user where
  "userE = \<lparr>user_id = ''E'', email = ''e@example.org'', availability = Online,
     friends = [''E'', ''B''], invitesTo = [], invitesFrom = [],
     invitesToChannels = [], joinedChannels = []\<rparr>"

definition staleScenario :: state where
  "staleScenario = \<lparr>users = [userD, userE, userB, userC], channels = [], servers = [],
     clients = Map.empty\<rparr>"

definition candidates :: json where
  "candidates = JArray [JString ''C'', JString ''A'', JString ''X'', JString ''C'']"

definition plainUserDTO :: "FetchedUser \<Rightarrow> user" where
  "plainUserDTO u = fst u"

lemmas scenario_defs =
  scenario_def userU_def userV_def serverS1_def serverS2_def idOnlyDTO_def dtoId_def

lemmas query_defs =
  findUser_def findChannel_def findServer_def populateArray_def populateServer_def
  populateChannel_def

lemmas friends_defs =
  friendsScenario_def userA_def userB_def userC_def candidates_def nonEmptyId_def
  plainUserDTO_def staleScenario_def userD_def userE_def

lemmas handler_defs =
  updateFriends_def saveFriends_def saveUser_def newSet_def Let_def friendsOf_def catchNext_def
  requestErrorHandler_def newError_def responses_def nextErrors_def thrown_def
  deleteUser_def findByIdAndRemove_def login_def logout_def getRelatedChannels_def
  findRelatedChannels_def handleDocumentNotFound_def setClient_def getClient_def

section \<open>Properties of the related-servers aggregation\<close>

lemma findIndexFrom_skip:
  "\<forall>y\<in>set pre. \<not> p y \<Longrightarrow> findIndexFrom k p (pre @ rest) = findIndexFrom (k + int (length pre)) p rest"
  by (induction pre arbitrary: k) (auto simp: algebra_simps)

lemma findIndexFrom_early:
  "\<exists>y\<in>set pre. p y \<Longrightarrow> findIndexFrom k p (pre @ rest) < k + int (length pre)"
proof (induction pre arbitrary: k)
  case Nil then show ?case by simp
next
  case (Cons a pre)
  show ?case
  proof (cases "p a")
    case True then show ?thesis by simp
  next
    case False
    with Cons.prems have "\<exists>y\<in>set pre. p y" by simp
    from Cons.IH [OF this, of "k + 1"] False show ?thesis by simp
  qed
qed

lemma findIndex_first:
  assumes "p x"
  shows "findIndex p (pre @ x # post) = int (length pre) \<longleftrightarrow> (\<forall>y\<in>set pre. \<not> p y)"
proof (cases "\<exists>y\<in>set pre. p y")
  case True
  then have "findIndexFrom 0 p (pre @ x # post) < 0 + int (length pre)"
    by (rule findIndexFrom_early)
  with True show ?thesis by (auto simp: findIndex_def)
next
  case False
  then have "findIndexFrom 0 p (pre @ x # post) = findIndexFrom (0 + int (length pre)) p (x # post)"
    by (intro findIndexFrom_skip) simp
  with False assms show ?thesis by (simp add: findIndex_def)
qed

lemma uniqueServers_suffix:
  "allServers = map Some (pre @ ds) \<Longrightarrow>
   filterIndexedFrom (int (length pre)) (firstOccurrence key allServers) (map Some ds)
   = map Some (firstSeen key (key ` set pre) ds)"
proof (induction ds arbitrary: pre)
  case Nil
  show ?case by simp
next
  case (Cons d ds)
  have split: "allServers = map Some pre @ Some d # map Some ds"
    using Cons.prems by simp
  have hit: "sameServer key d (Some d)" by (simp add: sameServer_def)
  have first: "firstOccurrence key allServers (Some d) (int (length pre))
                 \<longleftrightarrow> key d \<notin> key ` set pre"
  proof -
    have "(\<forall>y\<in>set (map Some pre). \<not> sameServer key d y) \<longleftrightarrow> key d \<notin> key ` set pre"
      by (auto simp: sameServer_def image_iff)
    with findIndex_first [of "sameServer key d" "Some d" "map Some pre" "map Some ds"] hit
    show ?thesis unfolding split firstOccurrence_def by simp
  qed
  have "allServers = map Some ((pre @ [d]) @ ds)"
    using Cons.prems by simp
  from Cons.IH [OF this]
  have step: "filterIndexedFrom (int (length pre) + 1) (firstOccurrence key allServers) (map Some ds)
     = map Some (firstSeen key (insert (key d) (key ` set pre)) ds)"
    by (simp add: add.commute)
  show ?case
  proof (cases "key d \<in> key ` set pre")
    case True
    then have "insert (key d) (key ` set pre) = key ` set pre" by auto
    with True first step show ?thesis by simp
  next
    case False
    with first step show ?thesis by simp
  qed
qed

lemma uniqueServers_firstSeen:
  "uniqueServers key (map Some ds) = map Some (firstSeen key {} ds)"
  using uniqueServers_suffix [of "map Some ds" "[]" ds key]
  by (simp add: uniqueServers_def filterIndexed_def)

lemma firstSeen_fresh: "x \<in> set (firstSeen key seen xs) \<Longrightarrow> key x \<notin> seen"
  by (induction xs arbitrary: seen) (auto split: if_splits)

lemma firstSeen_distinct: "distinct (map key (firstSeen key seen xs))"
proof (induction xs arbitrary: seen)
  case Nil show ?case by simp
next
  case (Cons x xs)
  have "key x \<notin> key ` set (firstSeen key (insert (key x) seen) xs)"
  proof
    assume "key x \<in> key ` set (firstSeen key (insert (key x) seen) xs)"
    then obtain y where y: "y \<in> set (firstSeen key (insert (key x) seen) xs)"
      and same: "key x = key y" by (rule imageE)
    from firstSeen_fresh [OF y] same show False by simp
  qed
  with Cons.IH show ?case by simp
qed

lemma firstSeen_keys: "key ` set (firstSeen key seen xs) = key ` set xs - seen"
  by (induction xs arbitrary: seen) auto

lemma firstSeen_is_first:
  "x \<in> set (firstSeen key seen xs) \<Longrightarrow> find (\<lambda>t. key t = key x) xs = Some x"
proof (induction xs arbitrary: seen)
  case Nil
  then show ?case by simp
next
  case (Cons a xs)
  show ?case
  proof (cases "key a \<in> seen")
    case True
    with Cons.prems have mem: "x \<in> set (firstSeen key seen xs)" by simp
    then have "key x \<notin> seen"
      by (rule firstSeen_fresh)
    with True have "key a \<noteq> key x" by auto
    with Cons.IH [OF mem] show ?thesis by simp
  next
    case False
    show ?thesis
    proof (cases "x = a")
      case True
      then show ?thesis by simp
    next
      case neq: False
      with False Cons.prems have mem: "x \<in> set (firstSeen key (insert (key a) seen) xs)"
        by simp
      then have "key x \<notin> insert (key a) seen"
        by (rule firstSeen_fresh)
      then have "key a \<noteq> key x" by auto
      with Cons.IH [OF mem] show ?thesis by simp
    qed
  qed
qed

lemma firstSeen_subseq: "subseq (firstSeen key seen xs) xs"
  by (induction xs arbitrary: seen) auto

lemma firstSeen_map:
  "firstSeen key seen (map f xs) = map f (firstSeen (\<lambda>x. key (f x)) seen xs)"
  by (induction xs arbitrary: seen) auto

lemma resolved_channels:
  "filter Boolean (map (channelServer serverDTO) (populateArray (populateChannel st) cids))
   = map Some (map serverDTO (reachableServers st cids))"
  by (induction cids)
     (auto simp: populateArray_def reachableServers_def serverOfChannel_def populateChannel_def
        channelServer_def Boolean_def split: option.splits)

lemma relatedServersOf_firstSeen:
  "relatedServersOf serverDTO dto_id st userId usr
   = map Some (firstSeen dto_id {}
       (map serverDTO (reachableServers st (invitesToChannels usr)
          @ reachableServers st (joinedChannels usr) @ ownedServers st userId)))"
proof -
  have own: "map (\<lambda>srv. Some (serverDTO srv)) (ownedServers st userId)
             = map Some (map serverDTO (ownedServers st userId))"
    by simp
  show ?thesis
    unfolding relatedServersOf_def Let_def resolved_channels
    unfolding ownedServers_def [symmetric] own map_append [symmetric]
    by (rule uniqueServers_firstSeen)
qed

lemma findUser_id: "findUser st i = Some u \<Longrightarrow> user_id u = i"
  by (auto simp: findUser_def find_Some_iff)


text \<open>
  C1. For an identity \<open>usr\<close> stored under \<open>userId\<close>, \<^verbatim>\<open>getRelatedServers\<close> answers 200
  with the servers reachable through the pending channel invites, then through the
  joined channels, then the owned servers, with later occurrences of a server id
  dropped: the ids of the answer are pairwise different, every reachable id is in it,
  the answer keeps the order of the concatenation, and each entry is the first server of
  the concatenation with its id. The transfer form is assumed to keep the server's id.
\<close>

theorem getRelatedServers_dedup_first_seen:
  assumes "findUser st userId = Some usr"
    and "\<And>srv. dto_id (serverDTO srv) = server_id (fst srv)"
  shows "getRelatedServers serverDTO dto_id st userId
           = [Respond 200 (map (\<lambda>srv. Some (serverDTO srv)) (relatedServers st usr))]
         \<and> distinct (map (\<lambda>srv. server_id (fst srv)) (relatedServers st usr))
         \<and> (\<lambda>srv. server_id (fst srv)) ` set (relatedServers st usr)
             = (\<lambda>srv. server_id (fst srv)) ` set (candidateServers st usr)
         \<and> subseq (relatedServers st usr) (candidateServers st usr)
         \<and> (\<forall>srv \<in> set (relatedServers st usr).
               find (\<lambda>t. server_id (fst t) = server_id (fst srv)) (candidateServers st usr)
                 = Some srv)"
proof -
  have uid: "user_id usr = userId"
    using assms(1) by (rule findUser_id)
  have "relatedServersOf serverDTO dto_id st userId usr
          = map Some (map serverDTO (relatedServers st usr))"
    unfolding relatedServersOf_firstSeen firstSeen_map assms(2)
    by (simp add: relatedServers_def candidateServers_def uid)
  then have answer: "getRelatedServers serverDTO dto_id st userId
           = [Respond 200 (map (\<lambda>srv. Some (serverDTO srv)) (relatedServers st usr))]"
    using assms(1) by (simp add: getRelatedServers_def handleDocumentNotFound_def)
  have ids: "(\<lambda>srv. server_id (fst srv)) ` set (relatedServers st usr)
             = (\<lambda>srv. server_id (fst srv)) ` set (candidateServers st usr)"
    unfolding relatedServers_def firstSeen_keys by simp
  have first: "\<forall>srv \<in> set (relatedServers st usr).
               find (\<lambda>t. server_id (fst t) = server_id (fst srv)) (candidateServers st usr)
                 = Some srv"
  proof
    fix srv
    assume "srv \<in> set (relatedServers st usr)"
    then show "find (\<lambda>t. server_id (fst t) = server_id (fst srv)) (candidateServers st usr)
                 = Some srv"
      using firstSeen_is_first
        [of srv "\<lambda>srv. server_id (fst srv)" "{}" "candidateServers st usr"]
      by (simp add: relatedServers_def)
  qed
  show ?thesis
    using answer ids first
    by (simp add: relatedServers_def firstSeen_distinct firstSeen_subseq)
qed

theorem getRelatedServers_dedup_first_seen_witness:
  "getRelatedServers idOnlyDTO dtoId scenario ''U'' = [Respond 200 [Some ''S2'', Some ''S1'']]"
proof -
  have usr: "findUser scenario ''U'' = Some userU"
    by (simp add: scenario_defs query_defs)
  have keeps: "\<And>srv. dtoId (idOnlyDTO srv) = server_id (fst srv)"
    by (simp add: scenario_defs)
  have "relatedServers scenario userU = [(serverS2, Some userV), (serverS1, Some userU)]"
    by (simp add: relatedServers_def candidateServers_def reachableServers_def
          serverOfChannel_def ownedServers_def scenario_defs query_defs)
  with getRelatedServers_dedup_first_seen
         [where st = scenario and usr = userU and dto_id = dtoId and serverDTO = idOnlyDTO,
          OF usr keeps]
  show ?thesis
    by (simp add: scenario_defs)
qed

subsection \<open>Dangling server references\<close>

lemma map_filter_removeAll:
  "f c = None \<Longrightarrow> List.map_filter f (removeAll c xs) = List.map_filter f xs"
  by (induction xs) (auto split: option.splits)

lemma map_filter_mem:
  "y \<in> set (List.map_filter f xs) \<Longrightarrow> \<exists>x\<in>set xs. f x = Some y"
  by (induction xs) (auto split: option.splits)

lemma reachableServers_dangling:
  assumes "findChannel st cid = Some ch" and "findServer st (serverId ch) = None"
  shows "reachableServers st (removeAll cid cids) = reachableServers st cids"
  unfolding reachableServers_def
  by (rule map_filter_removeAll) (simp add: serverOfChannel_def populateServer_def assms)

lemma find_Some_mem: "find p xs = Some x \<Longrightarrow> x \<in> set xs"
  by (auto simp: find_Some_iff)

lemma reachableServers_stored:
  assumes "srv \<in> set (reachableServers st cids)"
  shows "fst srv \<in> set (servers st)"
proof -
  from assms obtain cid where "serverOfChannel st cid = Some srv"
    unfolding reachableServers_def by (blast dest: map_filter_mem)
  then obtain c :: channel where "populateServer st (serverId c) = Some srv"
    by (auto simp: serverOfChannel_def split: option.splits)
  then have "findServer st (serverId c) = Some (fst srv)"
    by (auto simp: populateServer_def)
  then show ?thesis
    unfolding findServer_def by (rule find_Some_mem)
qed

lemma ownedServers_stored:
  "srv \<in> set (ownedServers st userId) \<Longrightarrow> fst srv \<in> set (servers st)"
  by (auto simp: ownedServers_def)

lemma firstSeen_subset: "set (firstSeen key seen xs) \<subseteq> set xs"
  by (induction xs arbitrary: seen) auto

lemma relatedServersOf_stored:
  "set (relatedServersOf serverDTO dto_id st userId usr)
     \<subseteq> (\<lambda>srv. Some (serverDTO srv)) ` {srv. fst srv \<in> set (servers st)}"
proof -
  let ?all = "reachableServers st (invitesToChannels usr)
          @ reachableServers st (joinedChannels usr) @ ownedServers st userId"
  have stored: "set ?all \<subseteq> {srv. fst srv \<in> set (servers st)}"
    using reachableServers_stored [of _ st] ownedServers_stored [of _ st userId] by auto
  have "set (firstSeen dto_id {} (map serverDTO ?all)) \<subseteq> serverDTO ` set ?all"
    using firstSeen_subset [of dto_id "{}" "map serverDTO ?all"] by (simp add: image_Un)
  also have "\<dots> \<subseteq> serverDTO ` {srv. fst srv \<in> set (servers st)}"
    using stored by (rule image_mono)
  finally have "Some ` set (firstSeen dto_id {} (map serverDTO ?all))
                  \<subseteq> Some ` serverDTO ` {srv. fst srv \<in> set (servers st)}"
    by (rule image_mono)
  then show ?thesis
    unfolding relatedServersOf_firstSeen by (simp add: image_image)
qed

lemma candidateServers_stored:
  "set (candidateServers st usr) \<subseteq> {srv. fst srv \<in> set (servers st)}"
  using reachableServers_stored [of _ st] ownedServers_stored [of _ st "user_id usr"]
  by (auto simp: candidateServers_def)

text \<open>
  C6. When a channel among the user's pending invites or joined channels points to a
  server that does not exist, \<^verbatim>\<open>getRelatedServers\<close> still answers 200, and the answer
  is the first-seen-wins list of the servers the user's channels and ownership lead to:
  the channel with the missing server leads to no server, the servers the user can
  reach are those the user could reach without that channel in either list, and all of
  them are stored servers.
\<close>

theorem getRelatedServers_dangling_excluded:
  assumes "findUser st userId = Some usr"
    and "cid \<in> set (invitesToChannels usr) \<union> set (joinedChannels usr)"
    and "findChannel st cid = Some ch"
    and "findServer st (serverId ch) = None"
  shows "getRelatedServers serverDTO dto_id st userId
           = [Respond 200
                (map Some (firstSeen dto_id {} (map serverDTO (candidateServers st usr))))]
         \<and> serverOfChannel st cid = None
         \<and> candidateServers st usr
             = candidateServers st
                 (usr\<lparr>invitesToChannels := removeAll cid (invitesToChannels usr),
                      joinedChannels := removeAll cid (joinedChannels usr)\<rparr>)
         \<and> set (candidateServers st usr) \<subseteq> {srv. fst srv \<in> set (servers st)}"
proof -
  have uid: "user_id usr = userId"
    using assms(1) by (rule findUser_id)
  have "relatedServersOf serverDTO dto_id st userId usr
          = map Some (firstSeen dto_id {} (map serverDTO (candidateServers st usr)))"
    unfolding relatedServersOf_firstSeen by (simp add: candidateServers_def uid)
  then have answer: "getRelatedServers serverDTO dto_id st userId
           = [Respond 200
                (map Some (firstSeen dto_id {} (map serverDTO (candidateServers st usr))))]"
    using assms(1) by (simp add: getRelatedServers_def handleDocumentNotFound_def)
  have nowhere: "serverOfChannel st cid = None"
    using assms(3,4) by (simp add: serverOfChannel_def populateServer_def)
  have same: "candidateServers st usr
             = candidateServers st
                 (usr\<lparr>invitesToChannels := removeAll cid (invitesToChannels usr),
                      joinedChannels := removeAll cid (joinedChannels usr)\<rparr>)"
    by (simp add: candidateServers_def reachableServers_dangling [OF assms(3,4)])
  from answer nowhere same candidateServers_stored [of st usr] show ?thesis
    by simp
qed

theorem getRelatedServers_dangling_excluded_witness:
  "getRelatedServers idOnlyDTO dtoId danglingScenario ''W''
     = [Respond 200 [Some ''S2'', Some ''S3'']]
   \<and> candidateServers danglingScenario userW
     = [(serverS2, Some userV), (serverS2, Some userV), (serverS3, Some userW)]"
proof -
  have usr: "findUser danglingScenario ''W'' = Some userW"
    by (simp add: danglingScenario_def userW_def scenario_defs query_defs)
  have mem: "''C9'' \<in> set (invitesToChannels userW) \<union> set (joinedChannels userW)"
    by (simp add: userW_def)
  have ch: "findChannel danglingScenario ''C9'' = Some \<lparr>channel_id = ''C9'', serverId = ''S9''\<rparr>"
    by (simp add: danglingScenario_def query_defs)
  have none: "findServer danglingScenario (serverId \<lparr>channel_id = ''C9'', serverId = ''S9''\<rparr>) = None"
    by (simp add: danglingScenario_def serverS3_def scenario_defs query_defs)
  have cands: "candidateServers danglingScenario userW
     = [(serverS2, Some userV), (serverS2, Some userV), (serverS3, Some userW)]"
    by (simp add: candidateServers_def reachableServers_def serverOfChannel_def
          ownedServers_def danglingScenario_def userW_def serverS3_def scenario_defs query_defs)
  have "firstSeen dtoId {} (map idOnlyDTO
          [(serverS2, Some userV), (serverS2, Some userV), (serverS3, Some userW)])
        = [''S2'', ''S3'']"
    by (simp add: serverS3_def scenario_defs)
  with getRelatedServers_dangling_excluded
         [where dto_id = dtoId and serverDTO = idOnlyDTO, OF usr mem ch none] cands
  show ?thesis by (simp add: serverS3_def scenario_defs)
qed

section \<open>Related channels: what is sent\<close>

lemma getRelatedChannels_scenario:
  "getRelatedChannels scenario ''U''
   = [Respond 200 NoBody,
      ConsoleLog (LoggedIds [''C2'']),
      ConsoleLog (LoggedChannels [\<lparr>channel_id = ''C1'', serverId = ''S1''\<rparr>,
                                  \<lparr>channel_id = ''C2'', serverId = ''S2''\<rparr>])]"
  by (simp add: handler_defs scenario_defs query_defs)

text \<open>
  C4. The claim has \<^verbatim>\<open>getRelatedChannels\<close> answer 200 with the union of the channels the
  identity is invited to and the channels of the servers it owns. The handler computes
  that list and writes it to the console, but the one response it ever sends is a 200
  without a body, whatever the store holds and whoever is asked for.
\<close>

theorem getRelatedChannels_sends_no_list:
  "responses (getRelatedChannels st userId) = [(200, NoBody)]"
  by (simp add: getRelatedChannels_def responses_def Let_def split: sum.splits)

section \<open>Properties of saving and removing\<close>

lemma find_replaceFirst_same:
  "find p xs = Some x \<Longrightarrow> p y \<Longrightarrow> find p (replaceFirst p y xs) = Some y"
  by (induction xs) (auto split: if_splits)

lemma find_replaceFirst_other:
  "(\<And>x. q x \<Longrightarrow> \<not> p x) \<Longrightarrow> \<not> q y \<Longrightarrow> find q (replaceFirst p y xs) = find q xs"
  by (induction xs) auto

lemma filter_replaceFirst_other:
  "(\<And>x. q x \<Longrightarrow> \<not> p x) \<Longrightarrow> \<not> q y \<Longrightarrow> filter q (replaceFirst p y xs) = filter q xs"
  by (induction xs) auto

lemma find_removeFirst_other:
  "(\<And>x. q x \<Longrightarrow> \<not> p x) \<Longrightarrow> find q (removeFirst p xs) = find q xs"
  by (induction xs) auto

lemma filter_removeFirst_other:
  "(\<And>x. q x \<Longrightarrow> \<not> p x) \<Longrightarrow> filter q (removeFirst p xs) = filter q xs"
  by (induction xs) auto

lemma findUser_saveUser_same:
  "findUser st (user_id usr) = Some old \<Longrightarrow> findUser (saveUser st usr) (user_id usr) = Some usr"
  unfolding findUser_def saveUser_def
  by (simp add: find_replaceFirst_same)

lemma findUser_saveUser_other:
  "v \<noteq> user_id usr \<Longrightarrow> findUser (saveUser st usr) v = findUser st v"
  unfolding findUser_def saveUser_def
  by (simp add: find_replaceFirst_other)

lemma others_saveUser:
  "filter (\<lambda>u. user_id u \<noteq> user_id usr) (users (saveUser st usr))
   = filter (\<lambda>u. user_id u \<noteq> user_id usr) (users st)"
  unfolding saveUser_def by (simp add: filter_replaceFirst_other)

lemma saveUser_frame:
  "channels (saveUser st usr) = channels st" "servers (saveUser st usr) = servers st"
  "clients (saveUser st usr) = clients st"
  by (simp_all add: saveUser_def)

lemma findUser_stored: "findUser st i \<noteq> None \<longleftrightarrow> i \<in> user_id ` set (users st)"
  by (auto simp: findUser_def find_None_iff)

lemma populated_ids:
  "map user_id (populateArray (findUser st) ids) = filter (\<lambda>i. findUser st i \<noteq> None) ids"
  by (induction ids) (auto simp: populateArray_def dest: findUser_id split: option.splits)

lemma newSet_fold:
  "set (fold (\<lambda>x acc. if x \<in> set acc then acc else acc @ [x]) xs acc) = set acc \<union> set xs
   \<and> (distinct acc \<longrightarrow> distinct (fold (\<lambda>x acc. if x \<in> set acc then acc else acc @ [x]) xs acc))"
  by (induction xs arbitrary: acc) auto

lemma set_newSet: "set (newSet xs) = set xs"
  using newSet_fold [of xs "[]"] by (simp add: newSet_def)

lemma distinct_newSet: "distinct (newSet xs)"
  using newSet_fold [of xs "[]"] by (simp add: newSet_def)


lemma found_ids:
  "set (map user_id (filter (\<lambda>u. user_id u \<in> S) (users st))) = {c \<in> S. findUser st c \<noteq> None}"
  unfolding findUser_stored by auto

lemma set_knownCandidates:
  "set (knownCandidates st userId body)
   = {c \<in> set (bodyIds body). c \<noteq> userId \<and> findUser st c \<noteq> None}"
  unfolding knownCandidates_def found_ids by auto

lemma set_resolvedFriends: "set (resolvedFriends st usr) \<subseteq> set (friends usr)"
  by (auto simp: resolvedFriends_def)

lemma resolvedFriends_all:
  "\<forall>f\<in>set (friends usr). findUser st f \<noteq> None \<Longrightarrow> resolvedFriends st usr = friends usr"
  by (simp add: resolvedFriends_def)

lemma deepEqualIds_iff: "deepEqualIds ids docs \<longleftrightarrow> ids = [] \<and> docs = []"
  by (cases ids; cases docs) simp_all

lemma newSet_Nil: "newSet xs = [] \<longleftrightarrow> xs = []"
  using set_newSet [of xs] by (metis set_empty)

lemma populated_Nil:
  "populateArray (findUser st) (friends usr) = [] \<longleftrightarrow> resolvedFriends st usr = []"
  using populated_ids [of st "friends usr"] by (metis resolvedFriends_def map_is_Nil_conv)

lemma kept_all:
  "filter (\<lambda>friend. user_id friend \<notin> S) (populateArray (findUser st) (friends usr))
     = populateArray (findUser st) (friends usr)
   \<longleftrightarrow> filter (\<lambda>i. i \<notin> S) (resolvedFriends st usr) = resolvedFriends st usr"
proof -
  have "set (resolvedFriends st usr) = user_id ` set (populateArray (findUser st) (friends usr))"
    using populated_ids [of st "friends usr"] by (metis resolvedFriends_def set_map)
  then show ?thesis by (simp add: filter_id_conv)
qed

lemma friendsOf_saved:
  assumes "findUser st userId = Some usr"
  shows "friendsOf (saveUser st (usr\<lparr>friends := fs\<rparr>)) userId = fs"
    and "findUser (saveUser st (usr\<lparr>friends := fs\<rparr>)) userId = Some (usr\<lparr>friends := fs\<rparr>)"
proof -
  have uid: "user_id (usr\<lparr>friends := fs\<rparr>) = userId"
    using assms by (simp add: findUser_id)
  have "findUser st (user_id (usr\<lparr>friends := fs\<rparr>)) = Some usr"
    using assms uid by simp
  from findUser_saveUser_same [OF this] uid
  show "findUser (saveUser st (usr\<lparr>friends := fs\<rparr>)) userId = Some (usr\<lparr>friends := fs\<rparr>)"
    by simp
  then show "friendsOf (saveUser st (usr\<lparr>friends := fs\<rparr>)) userId = fs"
    by (simp add: friendsOf_def)
qed

lemma friendsOf_saveFriends:
  assumes "findUser st userId = Some usr"
  shows "friendsOf (saveFriends st usr modified ids) userId
         = (if modified then ids else friends usr)"
  using friendsOf_saved(1) [OF assms] assms by (simp add: saveFriends_def friendsOf_def)

lemma updateFriends_add:
  assumes "findUser st userId = Some usr" and "validateUserField idShaped body"
  shows "updateFriends idShaped st userId body (QString ''add'')
         = (saveFriends st usr
              (newSet (resolvedFriends st usr @ knownCandidates st userId body) \<noteq> [])
              (newSet (resolvedFriends st usr @ knownCandidates st userId body)),
            [Respond 200 (FriendsReply ''Friends added!''
               (populateArray
                  (findUser (saveFriends st usr
                     (newSet (resolvedFriends st usr @ knownCandidates st userId body) \<noteq> [])
                     (newSet (resolvedFriends st usr @ knownCandidates st userId body))))
                  (newSet (resolvedFriends st usr @ knownCandidates st userId body))))])"
proof -
  have "deepEqualIds (newSet (resolvedFriends st usr @ knownCandidates st userId body))
          (populateArray (findUser st) (friends usr))
        \<longleftrightarrow> newSet (resolvedFriends st usr @ knownCandidates st userId body) = []"
    by (auto simp: deepEqualIds_iff newSet_Nil populated_Nil)
  with assms show ?thesis
    by (simp add: updateFriends_def Let_def populated_ids resolvedFriends_def
          knownCandidates_def)
qed

lemma updateFriends_add_friends:
  assumes "findUser st userId = Some usr" and "validateUserField idShaped body"
  shows "friendsOf (fst (updateFriends idShaped st userId body (QString ''add''))) userId
         = (if newSet (resolvedFriends st usr @ knownCandidates st userId body) = []
            then friends usr
            else newSet (resolvedFriends st usr @ knownCandidates st userId body))"
  unfolding updateFriends_add [OF assms] fst_conv friendsOf_saveFriends [OF assms(1)]
  by simp

lemma updateFriends_delete_friends:
  assumes "findUser st userId = Some usr" and "validateUserField idShaped body"
  shows "friendsOf (fst (updateFriends idShaped st userId body (QString ''delete''))) userId
         = (if filter (\<lambda>i. i \<notin> set (filter (\<lambda>i. i \<noteq> userId) (bodyIds body)))
                 (resolvedFriends st usr) = resolvedFriends st usr
            then friends usr
            else filter (\<lambda>i. i \<notin> set (filter (\<lambda>i. i \<noteq> userId) (bodyIds body)))
                   (resolvedFriends st usr))"
proof -
  let ?S = "set (filter (\<lambda>i. i \<noteq> userId) (bodyIds body))"
  let ?populated = "populateArray (findUser st) (friends usr)"
  have "map user_id (filter (\<lambda>friend. user_id friend \<notin> ?S) ?populated)
          = filter (\<lambda>i. i \<notin> ?S) (map user_id ?populated)"
    by (simp add: filter_map comp_def)
  also have "map user_id ?populated = resolvedFriends st usr"
    by (simp only: populated_ids resolvedFriends_def)
  finally have ids: "map user_id (filter (\<lambda>friend. user_id friend \<notin> ?S) ?populated)
             = filter (\<lambda>i. i \<notin> ?S) (resolvedFriends st usr)" .
  have stored: "fst (updateFriends idShaped st userId body (QString ''delete''))
        = saveFriends st usr
            (filter (\<lambda>friend. user_id friend \<notin> ?S) ?populated \<noteq> ?populated)
            (map user_id (filter (\<lambda>friend. user_id friend \<notin> ?S) ?populated))"
    using assms by (simp add: updateFriends_def Let_def)
  show ?thesis
    unfolding stored friendsOf_saveFriends [OF assms(1)] ids kept_all by simp
qed

section \<open>Properties of the bulk friend update\<close>

text \<open>
  C2, as amended. For a stored target whose friends all refer to stored identities and
  do not include the target's own id, and a body that passes validation: action
  \<^verbatim>\<open>add\<close> stores as the target's friends the existing friends together with the
  candidate ids that refer to a stored identity, the target's own id left out, without
  duplicates; action \<^verbatim>\<open>delete\<close> stores the existing friends minus the candidate ids.
\<close>

theorem updateFriends_union_difference:
  assumes "findUser st userId = Some usr" and "validateUserField idShaped body"
    and "\<forall>f\<in>set (friends usr). findUser st f \<noteq> None"
    and "userId \<notin> set (friends usr)"
  shows "set (friendsOf (fst (updateFriends idShaped st userId body (QString ''add''))) userId)
           = set (friends usr)
             \<union> {c \<in> set (bodyIds body). c \<noteq> userId \<and> findUser st c \<noteq> None}
         \<and> distinct (friendsOf (fst (updateFriends idShaped st userId body (QString ''add''))) userId)
         \<and> set (friendsOf (fst (updateFriends idShaped st userId body (QString ''delete''))) userId)
           = set (friends usr) - set (bodyIds body)"
proof -
  have all: "resolvedFriends st usr = friends usr"
    using assms(3) by (rule resolvedFriends_all)
  have "newSet (friends usr @ knownCandidates st userId body) = [] \<Longrightarrow> friends usr = []"
    by (simp add: newSet_Nil)
  then have added: "friendsOf (fst (updateFriends idShaped st userId body (QString ''add''))) userId
                = newSet (friends usr @ knownCandidates st userId body)"
    unfolding updateFriends_add_friends [OF assms(1,2)] all by auto
  have removed: "friendsOf (fst (updateFriends idShaped st userId body (QString ''delete''))) userId
                = filter (\<lambda>i. i \<notin> set (filter (\<lambda>i. i \<noteq> userId) (bodyIds body))) (friends usr)"
    unfolding updateFriends_delete_friends [OF assms(1,2)] all by auto
  have add: "set (friendsOf (fst (updateFriends idShaped st userId body (QString ''add''))) userId)
           = set (friends usr)
             \<union> {c \<in> set (bodyIds body). c \<noteq> userId \<and> findUser st c \<noteq> None}"
    unfolding added set_newSet set_append set_knownCandidates by simp
  have dis: "distinct (friendsOf (fst (updateFriends idShaped st userId body (QString ''add''))) userId)"
    unfolding added by (rule distinct_newSet)
  have del: "set (friendsOf (fst (updateFriends idShaped st userId body (QString ''delete''))) userId)
           = set (friends usr) - set (bodyIds body)"
    unfolding removed using assms(4) by auto
  from add dis del show ?thesis by simp
qed

theorem updateFriends_union_difference_witness:
  "findUser friendsScenario ''A'' = Some userA
   \<and> validateUserField nonEmptyId candidates
   \<and> set (friendsOf (fst (updateFriends nonEmptyId friendsScenario ''A'' candidates (QString ''add''))) ''A'')
       = {''B'', ''C''}
   \<and> set (friendsOf (fst (updateFriends nonEmptyId friendsScenario ''B'' candidates (QString ''delete''))) ''B'')
       = {}"
proof -
  have a: "findUser friendsScenario ''A'' = Some userA"
    and b: "findUser friendsScenario ''B'' = Some userB"
    by (simp_all add: friends_defs query_defs)
  have v: "validateUserField nonEmptyId candidates"
    by (simp add: friends_defs)
  have stored: "findUser friendsScenario ''A'' \<noteq> None" "findUser friendsScenario ''B'' \<noteq> None"
    "findUser friendsScenario ''C'' \<noteq> None" "findUser friendsScenario ''X'' = None"
    by (simp_all add: friends_defs query_defs)
  have refsA: "\<forall>f\<in>set (friends userA). findUser friendsScenario f \<noteq> None"
    and refsB: "\<forall>f\<in>set (friends userB). findUser friendsScenario f \<noteq> None"
    using stored by (simp_all add: userA_def userB_def)
  have selfA: "''A'' \<notin> set (friends userA)" and selfB: "''B'' \<notin> set (friends userB)"
    by (simp_all add: userA_def userB_def)
  have "set (friends userA)
          \<union> {c \<in> set (bodyIds candidates). c \<noteq> ''A'' \<and> findUser friendsScenario c \<noteq> None}
        = {''B'', ''C''}"
    using stored by (auto simp: userA_def candidates_def)
  moreover have "set (friends userB) - set (bodyIds candidates) = {}"
    by (auto simp: userB_def candidates_def)
  ultimately show ?thesis
    using updateFriends_union_difference [OF a v refsA selfA]
      updateFriends_union_difference [OF b v refsB selfB] a v
    by simp
qed

text \<open>
  The claim as stated fails in three ways. A has the friend B, and adding the unknown id
  X leaves A's friends without X. D's friends name Z, which no identity carries, and
  adding C stores B and C without Z. E's friends name E itself, and deleting E leaves
  them as they were.
\<close>

theorem updateFriends_union_counterexample:
  "set (friendsOf (fst (updateFriends nonEmptyId friendsScenario ''A''
          (JArray [JString ''X'']) (QString ''add''))) ''A'')
     \<noteq> set (friendsOf friendsScenario ''A'') \<union> (set [''X''] - {''A''})
   \<and> set (friendsOf (fst (updateFriends nonEmptyId staleScenario ''D''
          (JArray [JString ''C'']) (QString ''add''))) ''D'')
     \<noteq> set (friendsOf staleScenario ''D'') \<union> (set [''C''] - {''D''})
   \<and> set (friendsOf (fst (updateFriends nonEmptyId staleScenario ''E''
          (JArray [JString ''E'']) (QString ''delete''))) ''E'')
     \<noteq> set (friendsOf staleScenario ''E'') - set [''E'']"
proof -
  have a: "findUser friendsScenario ''A'' = Some userA"
    and d: "findUser staleScenario ''D'' = Some userD"
    and e: "findUser staleScenario ''E'' = Some userE"
    by (simp_all add: friends_defs query_defs)
  have v: "validateUserField nonEmptyId (JArray [JString ''X''])"
    "validateUserField nonEmptyId (JArray [JString ''C''])"
    "validateUserField nonEmptyId (JArray [JString ''E''])"
    by (simp_all add: nonEmptyId_def)
  have unknown: "friendsOf (fst (updateFriends nonEmptyId friendsScenario ''A''
          (JArray [JString ''X'']) (QString ''add''))) ''A'' = [''B'']"
    unfolding updateFriends_add_friends [OF a v(1)]
    by (simp add: resolvedFriends_def knownCandidates_def newSet_def friends_defs query_defs)
  have stale: "friendsOf (fst (updateFriends nonEmptyId staleScenario ''D''
          (JArray [JString ''C'']) (QString ''add''))) ''D'' = [''B'', ''C'']"
    unfolding updateFriends_add_friends [OF d v(2)]
    by (simp add: resolvedFriends_def knownCandidates_def newSet_def friends_defs query_defs)
  have self: "friendsOf (fst (updateFriends nonEmptyId staleScenario ''E''
          (JArray [JString ''E'']) (QString ''delete''))) ''E'' = [''E'', ''B'']"
    unfolding updateFriends_delete_friends [OF e v(3)]
    by (simp add: resolvedFriends_def friends_defs query_defs)
  have before: "friendsOf friendsScenario ''A'' = [''B'']"
    "friendsOf staleScenario ''D'' = [''Z'', ''B'']"
    "friendsOf staleScenario ''E'' = [''E'', ''B'']"
    by (simp_all add: friendsOf_def friends_defs query_defs)
  have first: "set [''B''] \<noteq> set [''B''] \<union> (set [''X''] - {''A''})"
  proof
    assume eq: "set [''B''] = set [''B''] \<union> (set [''X''] - {''A''})"
    have "''X'' \<in> set [''B''] \<union> (set [''X''] - {''A''})" by simp
    then have "''X'' \<in> set [''B'']" by (simp only: eq [symmetric])
    then show False by simp
  qed
  have second: "set [''B'', ''C''] \<noteq> set [''Z'', ''B''] \<union> (set [''C''] - {''D''})"
  proof
    assume eq: "set [''B'', ''C''] = set [''Z'', ''B''] \<union> (set [''C''] - {''D''})"
    have "''Z'' \<in> set [''Z'', ''B''] \<union> (set [''C''] - {''D''})" by simp
    then have "''Z'' \<in> set [''B'', ''C'']" by (simp only: eq [symmetric])
    then show False by simp
  qed
  have third: "set [''E'', ''B''] \<noteq> set [''E'', ''B''] - set [''E'']"
  proof
    assume eq: "set [''E'', ''B''] = set [''E'', ''B''] - set [''E'']"
    have "''E'' \<in> set [''E'', ''B'']" by simp
    then have "''E'' \<in> set [''E'', ''B''] - set [''E'']" using eq by blast
    then show False by simp
  qed
  from first second third show ?thesis
    unfolding unknown stale self before by (intro conjI)
qed

text \<open>
  C9. For a stored target and a body that passes validation, action \<^verbatim>\<open>add\<close> adds only
  candidate ids that a stored identity carries: a candidate id that no stored identity
  carries is not added to the stored friends, every id that is added is a candidate id
  of a stored identity, every such candidate id other than the target's own is among the
  friends afterwards, the friend list sent back has no entry for the unknown id, and the
  handler answers 200 without reporting an error.
\<close>

theorem updateFriends_drops_unknown:
  assumes "findUser st userId = Some usr" and "validateUserField idShaped body"
    and "c \<in> set (bodyIds body)" and "findUser st c = None"
  shows "c \<notin> set (friendsOf (fst (updateFriends idShaped st userId body (QString ''add''))) userId)
               - set (friends usr)
         \<and> set (friendsOf (fst (updateFriends idShaped st userId body (QString ''add''))) userId)
               - set (friends usr)
             \<subseteq> {k \<in> set (bodyIds body). k \<noteq> userId \<and> findUser st k \<noteq> None}
         \<and> {k \<in> set (bodyIds body). k \<noteq> userId \<and> findUser st k \<noteq> None}
             \<subseteq> set (friendsOf (fst (updateFriends idShaped st userId body (QString ''add''))) userId)
         \<and> c \<notin> user_id ` set (repliedFriends
                   (snd (updateFriends idShaped st userId body (QString ''add''))))
         \<and> nextErrors (snd (updateFriends idShaped st userId body (QString ''add''))) = []
         \<and> map fst (responses (snd (updateFriends idShaped st userId body (QString ''add'')))) = [200]"
proof -
  let ?merged = "newSet (resolvedFriends st usr @ knownCandidates st userId body)"
  let ?known = "{k \<in> set (bodyIds body). k \<noteq> userId \<and> findUser st k \<noteq> None}"
  have merged: "set ?merged = set (resolvedFriends st usr) \<union> ?known"
    by (simp add: set_newSet set_knownCandidates)
  have fs: "friendsOf (fst (updateFriends idShaped st userId body (QString ''add''))) userId
            = (if ?merged = [] then friends usr else ?merged)"
    by (rule updateFriends_add_friends [OF assms(1,2)])
  have added: "set (friendsOf (fst (updateFriends idShaped st userId body (QString ''add''))) userId)
               - set (friends usr) \<subseteq> ?known"
    unfolding fs using merged set_resolvedFriends [of st usr] by auto
  have unknown: "c \<notin> set (friendsOf (fst (updateFriends idShaped st userId body (QString ''add''))) userId)
               - set (friends usr)"
    using added assms(4) by auto
  have kept: "?known \<subseteq> set (friendsOf (fst (updateFriends idShaped st userId body (QString ''add''))) userId)"
  proof (cases "?merged = []")
    case True
    with merged have "?known = {}" by simp
    then show ?thesis by blast
  next
    case False
    with merged show ?thesis unfolding fs by auto
  qed
  have "c \<notin> set ?merged"
    unfolding merged using assms(4) by (simp add: resolvedFriends_def)
  moreover have "user_id ` set (populateArray (findUser st') ?merged) \<subseteq> set ?merged" for st'
    using populated_ids [of st' ?merged] by (metis filter_is_subset set_map)
  ultimately have reply: "c \<notin> user_id ` set (repliedFriends
                   (snd (updateFriends idShaped st userId body (QString ''add''))))"
    unfolding updateFriends_add [OF assms(1,2)] by (auto simp: repliedFriends_def)
  have ok: "nextErrors (snd (updateFriends idShaped st userId body (QString ''add''))) = []"
    "map fst (responses (snd (updateFriends idShaped st userId body (QString ''add'')))) = [200]"
    unfolding updateFriends_add [OF assms(1,2)]
    by (simp_all add: nextErrors_def responses_def)
  from unknown added kept reply ok show ?thesis by simp
qed

theorem updateFriends_drops_unknown_witness:
  "''X'' \<in> set (bodyIds candidates)
   \<and> findUser friendsScenario ''X'' = None
   \<and> friendsOf (fst (updateFriends nonEmptyId friendsScenario ''A'' candidates (QString ''add''))) ''A''
       = [''B'', ''C'']
   \<and> map fst (responses (snd (updateFriends nonEmptyId friendsScenario ''A'' candidates
         (QString ''add'')))) = [200]"
proof -
  have a: "findUser friendsScenario ''A'' = Some userA"
    by (simp add: friends_defs query_defs)
  have v: "validateUserField nonEmptyId candidates"
    by (simp add: friends_defs)
  have c: "''X'' \<in> set (bodyIds candidates)"
    by (simp add: candidates_def)
  have n: "findUser friendsScenario ''X'' = None"
    by (simp add: friends_defs query_defs)
  have "friendsOf (fst (updateFriends nonEmptyId friendsScenario ''A'' candidates (QString ''add''))) ''A''
       = [''B'', ''C'']"
    by (simp add: handler_defs friends_defs query_defs)
  with updateFriends_drops_unknown [OF a v c n] c n show ?thesis by simp
qed

text \<open>
  C7. Whatever the target, the body and the action are, the bulk friend update leaves
  the documents of all identities other than the target as they were (so no reverse
  edge is written to a candidate), and it leaves the channels, the servers and the
  connection map alone.
\<close>

theorem updateFriends_frame:
  "filter (\<lambda>u. user_id u \<noteq> userId) (users (fst (updateFriends idShaped st userId body action)))
     = filter (\<lambda>u. user_id u \<noteq> userId) (users st)
   \<and> (\<forall>v. v \<noteq> userId \<longrightarrow>
         findUser (fst (updateFriends idShaped st userId body action)) v = findUser st v)
   \<and> channels (fst (updateFriends idShaped st userId body action)) = channels st
   \<and> servers (fst (updateFriends idShaped st userId body action)) = servers st
   \<and> clients (fst (updateFriends idShaped st userId body action)) = clients st"
proof (cases "findUser st userId")
  case None
  then show ?thesis by (simp add: updateFriends_def Let_def)
next
  case (Some usr)
  then have uid: "user_id usr = userId" by (rule findUser_id)
  have saved: "\<And>fs. filter (\<lambda>u. user_id u \<noteq> userId) (users (saveUser st (usr\<lparr>friends := fs\<rparr>)))
                   = filter (\<lambda>u. user_id u \<noteq> userId) (users st)"
    using others_saveUser [of "usr\<lparr>friends := fs\<rparr>" st for fs] uid by simp
  have other: "\<And>fs v. v \<noteq> userId \<Longrightarrow> findUser (saveUser st (usr\<lparr>friends := fs\<rparr>)) v = findUser st v"
    using findUser_saveUser_other [of _ "usr\<lparr>friends := fs\<rparr>" st for fs] uid by simp
  show ?thesis
    using Some saved other
    by (simp add: updateFriends_def Let_def saveFriends_def saveUser_frame)
qed


theorem updateFriends_frame_witness:
  "findUser (fst (updateFriends nonEmptyId friendsScenario ''A'' candidates (QString ''add''))) ''C''
     = Some userC
   \<and> friendsOf (fst (updateFriends nonEmptyId friendsScenario ''A'' candidates (QString ''add''))) ''A''
     = [''B'', ''C'']"
proof -
  have "friendsOf (fst (updateFriends nonEmptyId friendsScenario ''A'' candidates (QString ''add''))) ''A''
     = [''B'', ''C'']"
    by (simp add: handler_defs friends_defs query_defs)
  moreover have "findUser friendsScenario ''C'' = Some userC"
    by (simp add: friends_defs query_defs)
  ultimately show ?thesis
    using updateFriends_frame [of "''A''" nonEmptyId friendsScenario candidates "QString ''add''"]
    by simp
qed

subsection \<open>Rejected requests\<close>

lemma updateFriends_rejects:
  assumes "body = JUndefined \<or> body = JArray [] \<or> \<not> validateUserField idShaped body
           \<or> action = QUndefined \<or> action \<notin> {QString ''add'', QString ''delete''}"
  shows "fst (updateFriends idShaped st userId body action) = st
         \<and> map message (nextErrors (snd (updateFriends idShaped st userId body action)))
             \<in> {[''Validation failed, entered data is incorrect.''],
                 [''Validation failed, `action` query parameter is required.'']}
         \<and> responses (snd (updateFriends idShaped st userId body action)) = []"
proof -
  have "\<not> validateUserField idShaped body \<or> invalidAction action"
    using assms by (cases action) auto
  then show ?thesis
    by (auto simp: updateFriends_def newError_def nextErrors_def responses_def)
qed

text \<open>
  C3. The claim has a request with an invalid body field or an invalid action fail with
  a validation error of status 422 before anything is written. The request is rejected
  before anything is written, but the error handed on carries no status: with the action
  parameter missing, whatever the body is, the store is unchanged, nothing is answered,
  and the one error passed to \<^verbatim>\<open>next\<close> has no \<^verbatim>\<open>statusCode\<close>.
\<close>

theorem updateFriends_missing_action_without_status:
  "fst (updateFriends idShaped st userId body QUndefined) = st
   \<and> responses (snd (updateFriends idShaped st userId body QUndefined)) = []
   \<and> map statusCode (nextErrors (snd (updateFriends idShaped st userId body QUndefined)))
       = [None]"
  by (simp add: updateFriends_def newError_def nextErrors_def responses_def)

lemma updateFriends_empty_list_without_status:
  "updateFriends nonEmptyId friendsScenario ''A'' (JArray []) (QString ''add'')
     = (friendsScenario,
        [Next \<lparr>errName = ''Error'',
               message = ''Validation failed, entered data is incorrect.'',
               statusCode = None\<rparr>])"
  by (simp add: updateFriends_def newError_def)

section \<open>Properties of account deletion\<close>

lemma removeFirst_gone:
  "distinct (map key xs) \<Longrightarrow> find (\<lambda>d. key d = k) (removeFirst (\<lambda>d. key d = k) xs) = None"
proof (induction xs)
  case Nil
  show ?case by simp
next
  case (Cons a xs)
  show ?case
  proof (cases "key a = k")
    case True
    with Cons.prems have "\<forall>x\<in>set xs. key x \<noteq> k" by (auto simp: image_iff)
    with True show ?thesis by (simp add: find_None_iff)
  next
    case False
    with Cons show ?thesis by simp
  qed
qed

text \<open>
  C5, as amended. Deleting the account of a stored identity answers 200 and removes that
  identity's document and nothing else: the documents of all other identities, with
  their friends, invitesTo and invitesFrom lists, are left as they were, and so are the
  channels, the servers and the connection map. When ids are unique in the collection,
  the deleted id is no longer found.
\<close>

theorem deleteUser_removes_own_document_only:
  assumes "findUser st userId = Some usr"
  shows "snd (deleteUser st userId) = [Respond 200 ''Deleted user.'']
   \<and> filter (\<lambda>u. user_id u \<noteq> userId) (users (fst (deleteUser st userId)))
       = filter (\<lambda>u. user_id u \<noteq> userId) (users st)
   \<and> (\<forall>v. v \<noteq> userId \<longrightarrow> findUser (fst (deleteUser st userId)) v = findUser st v)
   \<and> (distinct (map user_id (users st)) \<longrightarrow> findUser (fst (deleteUser st userId)) userId = None)
   \<and> channels (fst (deleteUser st userId)) = channels st
   \<and> servers (fst (deleteUser st userId)) = servers st
   \<and> clients (fst (deleteUser st userId)) = clients st"
  using assms
  by (simp add: deleteUser_def findByIdAndRemove_def findUser_def
        filter_removeFirst_other find_removeFirst_other removeFirst_gone)

theorem deleteUser_removes_own_document_only_witness:
  "findUser friendsScenario ''B'' = Some userB
   \<and> findUser (fst (deleteUser friendsScenario ''B'')) ''B'' = None
   \<and> findUser (fst (deleteUser friendsScenario ''B'')) ''A'' = Some userA"
proof -
  have b: "findUser friendsScenario ''B'' = Some userB"
    and a: "findUser friendsScenario ''A'' = Some userA"
    and d: "distinct (map user_id (users friendsScenario))"
    by (simp_all add: friends_defs query_defs)
  from deleteUser_removes_own_document_only [OF b] a b d show ?thesis by simp
qed

text \<open>
  The claim as stated fails: A and B are friends, and after B's account is deleted A's
  friends still name B.
\<close>

theorem deleteUser_cascade_counterexample:
  "''B'' \<in> set (friendsOf (fst (deleteUser friendsScenario ''B'')) ''A'')"
  by (simp add: handler_defs friends_defs query_defs)

section \<open>Properties of login and logout\<close>

text \<open>
  C8. For an authenticated identity whose document is stored, \<^verbatim>\<open>logout\<close> stores the
  availability Offline and answers 200, whether or not \<^verbatim>\<open>req.logout\<close> reported an error
  and whatever the connection map holds (the map is neither read nor changed); a
  successful \<^verbatim>\<open>login\<close> stores the availability Online and answers 200.
\<close>

theorem logout_offline_login_online:
  assumes "findUser st uid = Some usr"
  shows "findUser (fst (logout st (Some uid) logoutErr)) uid = Some (usr\<lparr>availability := Offline\<rparr>)
   \<and> clients (fst (logout st (Some uid) logoutErr)) = clients st
   \<and> responses (snd (logout st (Some uid) logoutErr)) = [(200, ())]
   \<and> findUser (fst (login userDTO st True (AuthUser uid) None)) uid
       = Some (usr\<lparr>availability := Online\<rparr>)
   \<and> map fst (responses (snd (login userDTO st True (AuthUser uid) None))) = [200]"
proof -
  have uid: "user_id usr = uid" using assms by (rule findUser_id)
  have saved: "\<And>a. findUser (saveUser st (usr\<lparr>availability := a\<rparr>)) uid
                 = Some (usr\<lparr>availability := a\<rparr>)"
    using findUser_saveUser_same [of st "usr\<lparr>availability := a\<rparr>" usr for a] assms uid
    by simp
  show ?thesis
    using assms saved
    by (cases logoutErr)
       (simp_all add: logout_def login_def Let_def saveUser_frame responses_def)
qed

theorem logout_offline_login_online_witness:
  "clients friendsScenario ''socket1'' = Some (AppSocket ''socket1'')
   \<and> clients friendsScenario ''socket2'' = Some (AppSocket ''socket2'')
   \<and> findUser friendsScenario ''A'' = Some userA
   \<and> findUser (fst (logout friendsScenario (Some ''A'') None)) ''A''
       = Some (userA\<lparr>availability := Offline\<rparr>)
   \<and> findUser (fst (login plainUserDTO friendsScenario True (AuthUser ''C'') None)) ''C''
       = Some (userC\<lparr>availability := Online\<rparr>)"
proof -
  have a: "findUser friendsScenario ''A'' = Some userA"
    and c: "findUser friendsScenario ''C'' = Some userC"
    by (simp_all add: friends_defs query_defs)
  have s: "clients friendsScenario ''socket1'' = Some (AppSocket ''socket1'')"
    "clients friendsScenario ''socket2'' = Some (AppSocket ''socket2'')"
    by (simp_all add: friendsScenario_def)
  from logout_offline_login_online [OF a, where logoutErr = None and userDTO = plainUserDTO]
    logout_offline_login_online [OF c, where logoutErr = None and userDTO = plainUserDTO]
    a s show ?thesis by simp
qed

text \<open>
  C10. The claim has a logout request without an authenticated user answer 200 and
  complete without raising an error, the store unchanged. The handler answers 200 and
  leaves the store unchanged, but it does not return after answering: it goes on to
  destructure the missing user, which throws.
\<close>

theorem logout_without_user_throws:
  "logout st None logoutErr = (st, [Respond 200 (), Throw destructureError])
   \<and> thrown (snd (logout st None logoutErr)) = [destructureError]"
  by (simp add: logout_def thrown_def)

end
